theory Spec2Isabelle
  imports Main "HOL-Library.Word"
begin

section \<open>Python values and exceptions\<close>

text \<open>
  The persistence layer of \<^verbatim>\<open>golem/model.py\<close> passes dynamically typed Python
  values through its field classes.  The values that the field classes inspect are
  modelled by one datatype; a raised exception is the left summand of a result.
  Floating point numbers are not part of the model.  A member of an \<^verbatim>\<open>Enum\<close>
  class carries the name of its class, its own name and its integer value.

  Besides the exceptions that the code raises, \<open>NotModelled\<close> marks an input whose
  Python result has no counterpart among the values modelled here (a floating point
  number, a character beyond U+00FF, an object of some class), and
  \<open>RecursionError\<close> is what a parser reports when its recursion budget is used up.
\<close>

datatype error =
  TypeError | ValueError | FormatError | OperationalError | RecursionError | NotModelled

type_synonym byte = "8 word"

datatype pyval =
    PyNone
  | PyBool bool
  | PyInt int
  | PyStr string
  | PyBytes "byte list"
  | PyList "pyval list"
  | PyTuple "pyval list"
  | PyDict "(pyval \<times> pyval) list"
  | PyEnum string string int
  | PyDateTime int

section \<open>Integers as hexadecimal text\<close>

text \<open>
  \<^verbatim>\<open>format(value, 'x')\<close> on a Python integer: lowercase hexadecimal digits, most
  significant first, no prefix, a leading minus sign for a negative number.
\<close>

definition hex_char :: "nat \<Rightarrow> char" where
  "hex_char d = (if d < 10 then char_of (48 + d) else char_of (87 + d))"

fun hex_of_nat :: "nat \<Rightarrow> string" where
  "hex_of_nat n =
     (if n < 16 then [hex_char n] else hex_of_nat (n div 16) @ [hex_char (n mod 16)])"

declare hex_of_nat.simps [simp del]

definition format_x :: "int \<Rightarrow> string" where
  "format_x v = (if v < 0 then CHR ''-'' # hex_of_nat (nat (- v)) else hex_of_nat (nat v))"

text \<open>
  \<^verbatim>\<open>int(text, 16)\<close>: surrounding white space is ignored, then an optional sign, an
  optional \<^verbatim>\<open>0x\<close> prefix (after which one underscore may follow), then at least
  one hexadecimal digit of either case, with single underscores allowed between
  digits.  Anything else raises \<^verbatim>\<open>ValueError\<close>.  The white space of \<^verbatim>\<open>bytes\<close> is
  the ASCII white space U+0009..U+000D and U+0020; in a \<^verbatim>\<open>str\<close> the characters
  U+0085 and U+00A0 are white space as well, while the separators U+001C..U+001F are not
  ignored by \<^verbatim>\<open>int\<close> and make it raise \<^verbatim>\<open>ValueError\<close>.
\<close>

definition hex_digit :: "char \<Rightarrow> nat option" where
  "hex_digit c =
     (let n = (of_char c :: nat) in
      if 48 \<le> n \<and> n \<le> 57 then Some (n - 48)
      else if 97 \<le> n \<and> n \<le> 102 then Some (n - 87)
      else if 65 \<le> n \<and> n \<le> 70 then Some (n - 55)
      else None)"

definition is_space_ascii :: "char \<Rightarrow> bool" where
  "is_space_ascii c = (let n = (of_char c :: nat) in (9 \<le> n \<and> n \<le> 13) \<or> n = 32)"

definition is_space_str :: "char \<Rightarrow> bool" where
  "is_space_str c =
     (let n = (of_char c :: nat) in
      (9 \<le> n \<and> n \<le> 13) \<or> n = 32 \<or> n = 133 \<or> n = 160)"

definition strip :: "(char \<Rightarrow> bool) \<Rightarrow> string \<Rightarrow> string" where
  "strip sp s = rev (dropWhile sp (rev (dropWhile sp s)))"

fun int_digits16 :: "nat \<Rightarrow> bool \<Rightarrow> string \<Rightarrow> nat option" where
  "int_digits16 acc us [] = (if us then None else Some acc)"
| "int_digits16 acc us (c # cs) =
     (if c = CHR ''_'' then (if us then None else int_digits16 acc True cs)
      else case hex_digit c of
             None \<Rightarrow> None
           | Some d \<Rightarrow> int_digits16 (16 * acc + d) False cs)"

fun skip_prefix16 :: "string \<Rightarrow> string" where
  "skip_prefix16 (a # b # cs) =
     (if a = CHR ''0'' \<and> (b = CHR ''x'' \<or> b = CHR ''X'')
      then (case cs of c # cs' \<Rightarrow> if c = CHR ''_'' then cs' else cs | [] \<Rightarrow> cs)
      else a # b # cs)"
| "skip_prefix16 cs = cs"

definition int_magnitude16 :: "string \<Rightarrow> nat option" where
  "int_magnitude16 s =
     (case skip_prefix16 s of
        [] \<Rightarrow> None
      | c # cs \<Rightarrow> if c = CHR ''_'' then None else int_digits16 0 False (c # cs))"

definition int_base16 :: "(char \<Rightarrow> bool) \<Rightarrow> string \<Rightarrow> error + int" where
  "int_base16 sp s =
     (case strip sp s of
        [] \<Rightarrow> Inl ValueError
      | c # cs \<Rightarrow>
          if c = CHR ''-'' then
            (case int_magnitude16 cs of None \<Rightarrow> Inl ValueError | Some n \<Rightarrow> Inr (- int n))
          else if c = CHR ''+'' then
            (case int_magnitude16 cs of None \<Rightarrow> Inl ValueError | Some n \<Rightarrow> Inr (int n))
          else
            (case int_magnitude16 (c # cs) of None \<Rightarrow> Inl ValueError | Some n \<Rightarrow> Inr (int n)))"

section \<open>BigIntegerField\<close>

text \<open>
  \<^verbatim>\<open>db_value\<close> raises \<^verbatim>\<open>TypeError\<close> unless \<^verbatim>\<open>isinstance(value, int)\<close>, which
  holds of integers and of the booleans (a subclass of \<^verbatim>\<open>int\<close>, formatted as 1 and
  0).  \<^verbatim>\<open>python_value\<close> returns \<^verbatim>\<open>None\<close> for \<^verbatim>\<open>None\<close> (the function falls off
  its end) and otherwise calls \<^verbatim>\<open>int(value, 16)\<close>, which raises \<^verbatim>\<open>TypeError\<close> for
  an argument that is neither text nor bytes.
\<close>

definition isinstance_int :: "pyval \<Rightarrow> bool" where
  "isinstance_int v = (case v of PyInt i \<Rightarrow> True | PyBool b \<Rightarrow> True | _ \<Rightarrow> False)"

definition int_of_pyval :: "pyval \<Rightarrow> int" where
  "int_of_pyval v = (case v of PyInt i \<Rightarrow> i | PyBool b \<Rightarrow> (if b then 1 else 0) | _ \<Rightarrow> 0)"

definition BigIntegerField_db_value :: "pyval \<Rightarrow> error + pyval" where
  "BigIntegerField_db_value v =
     (if \<not> isinstance_int v then Inl TypeError
      else Inr (PyStr (format_x (int_of_pyval v))))"

definition BigIntegerField_python_value :: "pyval \<Rightarrow> error + pyval" where
  "BigIntegerField_python_value v =
     (case v of
        PyNone \<Rightarrow> Inr PyNone
      | PyStr s \<Rightarrow> map_sum id PyInt (int_base16 is_space_str s)
      | PyBytes bs \<Rightarrow> map_sum id PyInt (int_base16 is_space_ascii (map (\<lambda>b. char_of (unat b)) bs))
      | _ \<Rightarrow> Inl TypeError)"

text \<open>
  Writing a value to a column and reading it back: \<^verbatim>\<open>python_value(db_value(v))\<close>,
  where an exception of either step is the result.
\<close>

definition roundtrip :: "('a \<Rightarrow> error + 'b) \<Rightarrow> ('b \<Rightarrow> error + 'c) \<Rightarrow> 'a \<Rightarrow> error + 'c" where
  "roundtrip db_value python_value v =
     (case db_value v of Inl e \<Rightarrow> Inl e | Inr stored \<Rightarrow> python_value stored)"

section \<open>EnumField\<close>

text \<open>
  An \<^verbatim>\<open>Enum\<close> class is given by its name and its members in declaration order, each
  a name with its integer value.  Python makes a later name with the value of an earlier
  one an alias of the earlier member, so the member that a value denotes is the first one
  declared with that value; \<^verbatim>\<open>isinstance(value, enum_type)\<close> holds of exactly these
  members.  Calling the class with a value looks the member up and raises
  \<^verbatim>\<open>ValueError\<close> when there is none; calling it with one of its members returns the
  member; \<^verbatim>\<open>True\<close> and \<^verbatim>\<open>False\<close> are equal to 1 and 0.
\<close>

record enum_type =
  enum_name :: string
  enum_members :: "(string \<times> int) list"

definition PaymentStatus :: enum_type where
  "PaymentStatus =
     \<lparr>enum_name = ''PaymentStatus'',
      enum_members = [(''awaiting'', 1), (''sent'', 2), (''confirmed'', 3)]\<rparr>"

definition member_of_value :: "enum_type \<Rightarrow> int \<Rightarrow> (string \<times> int) option" where
  "member_of_value et i = find (\<lambda>m. snd m = i) (enum_members et)"

definition isinstance_enum :: "enum_type \<Rightarrow> pyval \<Rightarrow> bool" where
  "isinstance_enum et v =
     (case v of
        PyEnum cls n x \<Rightarrow> cls = enum_name et \<and> member_of_value et x = Some (n, x)
      | _ \<Rightarrow> False)"

definition enum_call :: "enum_type \<Rightarrow> pyval \<Rightarrow> error + pyval" where
  "enum_call et v =
     (if isinstance_enum et v then Inr v
      else if isinstance_int v then
        (case member_of_value et (int_of_pyval v) of
           None \<Rightarrow> Inl ValueError
         | Some (n, x) \<Rightarrow> Inr (PyEnum (enum_name et) n x))
      else Inl ValueError)"

definition EnumField_db_value :: "enum_type \<Rightarrow> pyval \<Rightarrow> error + pyval" where
  "EnumField_db_value et v =
     (if \<not> isinstance_enum et v then Inl TypeError
      else (case v of PyEnum cls n x \<Rightarrow> Inr (PyInt x) | _ \<Rightarrow> Inl TypeError))"

definition EnumField_python_value :: "enum_type \<Rightarrow> pyval \<Rightarrow> error + pyval" where
  "EnumField_python_value et v = enum_call et v"

section \<open>RawCharField\<close>

text \<open>
  Modelled from the spec: \<^verbatim>\<open>golem.utils.encode_hex\<close>, which is imported by
  \<^verbatim>\<open>model.py\<close> and defined outside it.  The spec has it hex-encode bytes to a
  lowercase hex string: two digits for each byte, the high half first.
\<close>

definition encode_hex :: "byte list \<Rightarrow> string" where
  "encode_hex bs = concat (map (\<lambda>b. [hex_char (unat b div 16), hex_char (unat b mod 16)]) bs)"

text \<open>
  Modelled from the spec: \<^verbatim>\<open>golem.utils.decode_hex\<close>, which is imported by
  \<^verbatim>\<open>model.py\<close> and defined outside it.  The spec has it hex-decode a string back
  to bytes and fail with a FormatError on input of odd length or with a character that is
  not a hex digit.
\<close>

fun decode_hex :: "string \<Rightarrow> error + byte list" where
  "decode_hex [] = Inr []"
| "decode_hex [a] = Inl FormatError"
| "decode_hex (a # b # cs) =
     (case hex_digit a of
        None \<Rightarrow> Inl FormatError
      | Some x \<Rightarrow>
          (case hex_digit b of
             None \<Rightarrow> Inl FormatError
           | Some y \<Rightarrow>
               (case decode_hex cs of
                  Inl e \<Rightarrow> Inl e
                | Inr bs \<Rightarrow> Inr (of_nat (16 * x + y) # bs))))"

text \<open>
  The field applies \<^verbatim>\<open>str\<close> to the encoded text, which leaves a string as it is.
\<close>

definition RawCharField_db_value :: "byte list \<Rightarrow> string" where
  "RawCharField_db_value v = encode_hex v"

definition RawCharField_python_value :: "string \<Rightarrow> error + byte list" where
  "RawCharField_python_value v = decode_hex v"

section \<open>JsonField\<close>



datatype json =
    JNull
  | JBool bool
  | JInt int
  | JStr string
  | JArr "json list"
  | JObj "(string \<times> json) list"





text \<open>
  \<^verbatim>\<open>d[k] = v\<close> on a dictionary: an existing key keeps its place and gets the new
  value, a new key goes to the end.  \<^verbatim>\<open>dict(pairs)\<close> stores the pairs one by one.
\<close>

definition dict_set :: "'k \<Rightarrow> 'v \<Rightarrow> ('k \<times> 'v) list \<Rightarrow> ('k \<times> 'v) list" where
  "dict_set k v kvs =
     (if k \<in> fst ` set kvs then map (\<lambda>(k', v'). if k' = k then (k', v) else (k', v')) kvs
      else kvs @ [(k, v)])"

definition dict_of_items :: "('k \<times> 'v) list \<Rightarrow> ('k \<times> 'v) list" where
  "dict_of_items items = foldl (\<lambda>d (k, v). dict_set k v d) [] items"










text \<open>
  \<^verbatim>\<open>json.loads\<close>: a recursive descent over the text.  White space may stand around
  every token.  A raw control character in a string is an error.  An object keeps the
  last value given for a key.  Malformed text raises \<^verbatim>\<open>JSONDecodeError\<close>, which is a
  \<^verbatim>\<open>ValueError\<close>.  A number with a fraction or an exponent, \<^verbatim>\<open>NaN\<close> and
  \<^verbatim>\<open>Infinity\<close> denote floating point numbers, and an escape above U+00FF denotes
  a character that \<open>char\<close> does not hold: they are \<open>NotModelled\<close>.  The recursion
  is bounded by a budget, which \<open>json_loads\<close> sets to more than twice the length of
  the text; that much is never used up.
\<close>

definition is_ws :: "char \<Rightarrow> bool" where
  "is_ws c = (c = CHR '' '' \<or> c = CHR 0x09 \<or> c = CHR 0x0A \<or> c = CHR 0x0D)"

definition skip_ws :: "string \<Rightarrow> string" where
  "skip_ws s = dropWhile is_ws s"

definition is_digit :: "char \<Rightarrow> bool" where
  "is_digit c = (48 \<le> (of_char c :: nat) \<and> (of_char c :: nat) \<le> 57)"

definition digit_val :: "char \<Rightarrow> nat" where
  "digit_val c = of_char c - 48"

definition unescape :: "char \<Rightarrow> char option" where
  "unescape e =
     (if e = CHR 0x22 then Some (CHR 0x22)
      else if e = CHR 0x5C then Some (CHR 0x5C)
      else if e = CHR ''/'' then Some (CHR ''/'')
      else if e = CHR ''b'' then Some (CHR 0x08)
      else if e = CHR ''f'' then Some (CHR 0x0C)
      else if e = CHR ''n'' then Some (CHR 0x0A)
      else if e = CHR ''r'' then Some (CHR 0x0D)
      else if e = CHR ''t'' then Some (CHR 0x09)
      else None)"

definition parse_hex4 :: "char \<Rightarrow> char \<Rightarrow> char \<Rightarrow> char \<Rightarrow> nat option" where
  "parse_hex4 a b c d =
     (case (hex_digit a, hex_digit b, hex_digit c, hex_digit d) of
        (Some x, Some y, Some z, Some w) \<Rightarrow> Some (((x * 16 + y) * 16 + z) * 16 + w)
      | _ \<Rightarrow> None)"

fun scanstring :: "string \<Rightarrow> error + (string \<times> string)" where
  "scanstring [] = Inl ValueError"
| "scanstring (c # r) =
     (if c = CHR 0x22 then Inr ([], r)
      else if c = CHR 0x5C then
        (case r of
           [] \<Rightarrow> Inl ValueError
         | e # r1 \<Rightarrow>
             if e = CHR ''u'' then
               (case r1 of
                  a # b # c # d # r2 \<Rightarrow>
                    (case parse_hex4 a b c d of
                       None \<Rightarrow> Inl ValueError
                     | Some n \<Rightarrow>
                         if 256 \<le> n then Inl NotModelled
                         else (case scanstring r2 of
                                 Inl err \<Rightarrow> Inl err
                               | Inr (s, r3) \<Rightarrow> Inr (char_of n # s, r3)))
                | _ \<Rightarrow> Inl ValueError)
             else
               (case unescape e of
                  None \<Rightarrow> Inl ValueError
                | Some ch \<Rightarrow>
                    (case scanstring r1 of
                       Inl err \<Rightarrow> Inl err
                     | Inr (s, r3) \<Rightarrow> Inr (ch # s, r3))))
      else if (of_char c :: nat) < 32 then Inl ValueError
      else (case scanstring r of
              Inl err \<Rightarrow> Inl err
            | Inr (s, r3) \<Rightarrow> Inr (c # s, r3)))"

definition nat_of_digits :: "string \<Rightarrow> nat" where
  "nat_of_digits ds = foldl (\<lambda>a c. 10 * a + digit_val c) 0 ds"

definition is_float_tail :: "string \<Rightarrow> bool" where
  "is_float_tail r =
     (case r of
        a # b # r' \<Rightarrow>
          (a = CHR ''.'' \<and> is_digit b)
          \<or> ((a = CHR ''e'' \<or> a = CHR ''E'')
              \<and> (is_digit b \<or> ((b = CHR ''+'' \<or> b = CHR ''-'')
                                   \<and> (case r' of c # r'' \<Rightarrow> is_digit c | [] \<Rightarrow> False))))
      | _ \<Rightarrow> False)"

definition scan_magnitude :: "string \<Rightarrow> error + (nat \<times> string)" where
  "scan_magnitude s =
     (case s of
        [] \<Rightarrow> Inl ValueError
      | c # r \<Rightarrow>
          if c = CHR ''0'' then
            (if is_float_tail r then Inl NotModelled else Inr (0, r))
          else if is_digit c then
            (let ds = takeWhile is_digit s; r' = dropWhile is_digit s
             in if is_float_tail r' then Inl NotModelled else Inr (nat_of_digits ds, r'))
          else Inl ValueError)"

definition starts_with :: "string \<Rightarrow> string \<Rightarrow> bool" where
  "starts_with p s = (take (length p) s = p)"

definition scan_number :: "string \<Rightarrow> error + (json \<times> string)" where
  "scan_number s =
     (case s of
        [] \<Rightarrow> Inl ValueError
      | c # r \<Rightarrow>
          if c = CHR ''-'' then
            (if starts_with ''Infinity'' r then Inl NotModelled
             else case scan_magnitude r of
                    Inl err \<Rightarrow> Inl err
                  | Inr (n, r') \<Rightarrow> Inr (JInt (- int n), r'))
          else (case scan_magnitude s of
                  Inl err \<Rightarrow> Inl err
                | Inr (n, r') \<Rightarrow> Inr (JInt (int n), r')))"

fun scan_value :: "nat \<Rightarrow> string \<Rightarrow> error + (json \<times> string)"
  and scan_elems :: "nat \<Rightarrow> string \<Rightarrow> error + (json list \<times> string)"
  and scan_members :: "nat \<Rightarrow> string \<Rightarrow> error + ((string \<times> json) list \<times> string)" where
  "scan_value 0 s = Inl RecursionError"
| "scan_value (Suc n) s =
     (case s of
        [] \<Rightarrow> Inl ValueError
      | c # r \<Rightarrow>
          if c = CHR 0x22 then
            (case scanstring r of Inl err \<Rightarrow> Inl err | Inr (str, r') \<Rightarrow> Inr (JStr str, r'))
          else if c = CHR ''{'' then
            (case skip_ws r of
               [] \<Rightarrow> Inl ValueError
             | d # r' \<Rightarrow>
                 if d = CHR ''}'' then Inr (JObj [], r')
                 else (case scan_members n (d # r') of
                         Inl err \<Rightarrow> Inl err
                       | Inr (items, r'') \<Rightarrow> Inr (JObj (dict_of_items items), r'')))
          else if c = CHR ''['' then
            (case skip_ws r of
               [] \<Rightarrow> Inl ValueError
             | d # r' \<Rightarrow>
                 if d = CHR '']'' then Inr (JArr [], r')
                 else (case scan_elems n (d # r') of
                         Inl err \<Rightarrow> Inl err
                       | Inr (xs, r'') \<Rightarrow> Inr (JArr xs, r'')))
          else if starts_with ''null'' s then Inr (JNull, drop 4 s)
          else if starts_with ''true'' s then Inr (JBool True, drop 4 s)
          else if starts_with ''false'' s then Inr (JBool False, drop 5 s)
          else if starts_with ''NaN'' s \<or> starts_with ''Infinity'' s then Inl NotModelled
          else scan_number s)"
| "scan_elems 0 s = Inl RecursionError"
| "scan_elems (Suc n) s =
     (case scan_value n s of
        Inl err \<Rightarrow> Inl err
      | Inr (x, r) \<Rightarrow>
          (case skip_ws r of
             [] \<Rightarrow> Inl ValueError
           | d # r' \<Rightarrow>
               if d = CHR '']'' then Inr ([x], r')
               else if d = CHR '','' then
                 (case scan_elems n (skip_ws r') of
                    Inl err \<Rightarrow> Inl err
                  | Inr (xs, r'') \<Rightarrow> Inr (x # xs, r''))
               else Inl ValueError))"
| "scan_members 0 s = Inl RecursionError"
| "scan_members (Suc n) s =
     (case s of
        [] \<Rightarrow> Inl ValueError
      | q # r0 \<Rightarrow>
          if q \<noteq> CHR 0x22 then Inl ValueError
          else
            (case scanstring r0 of
               Inl err \<Rightarrow> Inl err
             | Inr (k, r1) \<Rightarrow>
                 (case skip_ws r1 of
                    [] \<Rightarrow> Inl ValueError
                  | col # r2 \<Rightarrow>
                      if col \<noteq> CHR '':'' then Inl ValueError
                      else
                        (case scan_value n (skip_ws r2) of
                           Inl err \<Rightarrow> Inl err
                         | Inr (v, r3) \<Rightarrow>
                             (case skip_ws r3 of
                                [] \<Rightarrow> Inl ValueError
                              | d # r4 \<Rightarrow>
                                  if d = CHR ''}'' then Inr ([(k, v)], r4)
                                  else if d = CHR '','' then
                                    (case scan_members n (skip_ws r4) of
                                       Inl err \<Rightarrow> Inl err
                                     | Inr (items, r5) \<Rightarrow> Inr ((k, v) # items, r5))
                                  else Inl ValueError)))))"

definition json_loads :: "string \<Rightarrow> error + json" where
  "json_loads s =
     (case scan_value (Suc (2 * length s)) (skip_ws s) of
        Inl err \<Rightarrow> Inl err
      | Inr (v, r) \<Rightarrow> if skip_ws r = [] then Inr v else Inl ValueError)"







section \<open>Entities\<close>

text \<open>
  Each model class of \<^verbatim>\<open>model.py\<close> with the names of its primary key fields: the
  implicit \<^verbatim>\<open>id\<close>, a field declared with \<^verbatim>\<open>primary_key=True\<close>, or the fields of
  a \<^verbatim>\<open>CompositeKey\<close>.
\<close>

record entity =
  entity_name :: string
  primary_key :: "string list"

definition Account :: entity where
  "Account = \<lparr>entity_name = ''Account'', primary_key = [''id'']\<rparr>"

definition ExpectedIncome :: entity where
  "ExpectedIncome = \<lparr>entity_name = ''ExpectedIncome'', primary_key = [''id'']\<rparr>"

definition GlobalRank :: entity where
  "GlobalRank = \<lparr>entity_name = ''GlobalRank'', primary_key = [''id'']\<rparr>"

definition HardwarePreset :: entity where
  "HardwarePreset = \<lparr>entity_name = ''HardwarePreset'', primary_key = [''id'']\<rparr>"

definition Income :: entity where
  "Income = \<lparr>entity_name = ''Income'', primary_key = [''sender_node'', ''subtask'']\<rparr>"

definition KnownHosts :: entity where
  "KnownHosts = \<lparr>entity_name = ''KnownHosts'', primary_key = [''id'']\<rparr>"

definition LocalRank :: entity where
  "LocalRank = \<lparr>entity_name = ''LocalRank'', primary_key = [''id'']\<rparr>"

definition NeighbourLocRank :: entity where
  "NeighbourLocRank =
     \<lparr>entity_name = ''NeighbourLocRank'', primary_key = [''node_id'', ''about_node_id'']\<rparr>"

definition Payment :: entity where
  "Payment = \<lparr>entity_name = ''Payment'', primary_key = [''subtask'']\<rparr>"

definition ReceivedPayment :: entity where
  "ReceivedPayment =
     \<lparr>entity_name = ''ReceivedPayment'', primary_key = [''from_node_id'', ''task'']\<rparr>"

definition Stats :: entity where
  "Stats = \<lparr>entity_name = ''Stats'', primary_key = [''id'']\<rparr>"

definition TaskPreset :: entity where
  "TaskPreset = \<lparr>entity_name = ''TaskPreset'', primary_key = [''task_type'', ''name'']\<rparr>"

text \<open>The list \<^verbatim>\<open>tables\<close> of \<^verbatim>\<open>Database.create_database\<close>, in its order.\<close>

definition tables :: "entity list" where
  "tables =
     [Account, ExpectedIncome, GlobalRank, HardwarePreset, Income, KnownHosts, LocalRank,
      NeighbourLocRank, Payment, ReceivedPayment, Stats, TaskPreset]"

section \<open>The database file and its schema version\<close>

text \<open>
  A database file holds the \<^verbatim>\<open>user_version\<close> marker of the engine and, for each table
  that exists, its rows.  The marker is a slot of the engine, apart from every table,
  that holds a signed integer of 32 bits: \<^verbatim>\<open>PRAGMA user_version = n\<close> stores \<open>n\<close> when
  \<open>- 2 ^ 31 \<le> n < 2 ^ 31\<close> and stores 0 for every other \<open>n\<close>, without an error.
  Each request that the code sends to the engine is also recorded, in order, so that
  what a call did can be told from what it left behind: reading the marker, writing it,
  dropping a table if it exists (\<^verbatim>\<open>drop_tables(..., safe=True)\<close>) and creating a
  table if it does not exist (\<^verbatim>\<open>create_tables(..., safe=True)\<close>).
\<close>

datatype db_event = ReadVersion | WriteVersion int | DropTable string | EnsureTable string

record 'row database =
  user_version :: int
  table_rows :: "string \<rightharpoonup> 'row list"
  executed :: "db_event list"


definition get_user_version :: "'row database \<Rightarrow> int \<times> 'row database" where
  "get_user_version db = (user_version db, db\<lparr>executed := executed db @ [ReadVersion]\<rparr>)"

definition pragma_value :: "int \<Rightarrow> int" where
  "pragma_value n = (if - (2 ^ 31) \<le> n \<and> n < 2 ^ 31 then n else 0)"

definition set_user_version :: "int \<Rightarrow> 'row database \<Rightarrow> 'row database" where
  "set_user_version version db =
     db\<lparr>user_version := pragma_value version,
        executed := executed db @ [WriteVersion version]\<rparr>"

definition drop_table :: "entity \<Rightarrow> 'row database \<Rightarrow> 'row database" where
  "drop_table e db =
     db\<lparr>table_rows := (table_rows db)(entity_name e := None),
        executed := executed db @ [DropTable (entity_name e)]\<rparr>"

definition create_table :: "entity \<Rightarrow> 'row database \<Rightarrow> 'row database" where
  "create_table e db =
     db\<lparr>table_rows :=
          (case table_rows db (entity_name e) of
             None \<Rightarrow> (table_rows db)(entity_name e \<mapsto> [])
           | Some rows \<Rightarrow> table_rows db),
        executed := executed db @ [EnsureTable (entity_name e)]\<rparr>"

text \<open>
  \<^verbatim>\<open>create_tables\<close> and \<^verbatim>\<open>drop_tables\<close> of the library order the models by name,
  a model before those that refer to it; tables are created in this order and dropped in
  the reverse order.  The models of \<^verbatim>\<open>model.py\<close> have no foreign keys and the list
  \<^verbatim>\<open>tables\<close> is in the order of the names, so creation follows the list and dropping
  runs through it backwards.
\<close>

fun drop_each :: "entity list \<Rightarrow> 'row database \<Rightarrow> 'row database" where
  "drop_each [] db = db"
| "drop_each (e # es) db = drop_each es (drop_table e db)"

fun create_each :: "entity list \<Rightarrow> 'row database \<Rightarrow> 'row database" where
  "create_each [] db = db"
| "create_each (e # es) db = create_each es (create_table e db)"

definition drop_tables :: "entity list \<Rightarrow> 'row database \<Rightarrow> 'row database" where
  "drop_tables models db = drop_each (rev models) db"

definition create_tables :: "entity list \<Rightarrow> 'row database \<Rightarrow> 'row database" where
  "create_tables models db = create_each models db"

text \<open>
  \<^verbatim>\<open>Database.create_database\<close>.  The expected version is the class attribute
  \<^verbatim>\<open>Database.SCHEMA_VERSION\<close>, read when the method runs; it is an argument here, so
  that a bump of the attribute can be expressed, and is 5 in the source as it stands.
\<close>

definition create_database_at :: "int \<Rightarrow> 'row database \<Rightarrow> 'row database" where
  "create_database_at schema_version db =
     (let (version, db1) = get_user_version db;
          db2 = (if version \<noteq> schema_version
                 then set_user_version schema_version (drop_tables tables db1)
                 else db1)
      in create_tables tables db2)"


section \<open>The database handle\<close>

text \<open>
  The module keeps one global \<^verbatim>\<open>SqliteDatabase\<close> object.  Its state is the file name
  given to \<^verbatim>\<open>init\<close> (none while the object is deferred), whether its connection is
  closed, and how many connections it has opened so far; beside it stand the files on
  disk and, for a file that is absent, whether it can be created (its directory exists
  and can be written to).

  \<^verbatim>\<open>init\<close> of the library first closes the connection if it is open and then takes
  the file name.  \<^verbatim>\<open>connect\<close> raises \<^verbatim>\<open>OperationalError\<close> on a deferred object and
  on an object whose connection is open; otherwise it opens the file, creating it when it
  is absent, and raises \<^verbatim>\<open>OperationalError\<close> when the file is absent and cannot be
  created.  A file that is present is taken to be a database that can be read.
\<close>

record 'row handle =
  database :: "string option"
  closed :: bool
  connections :: nat
  files :: "string \<rightharpoonup> 'row database"
  creatable :: "string \<Rightarrow> bool"



definition is_closed :: "'row handle \<Rightarrow> bool" where
  "is_closed h = closed h"

definition db_close :: "'row handle \<Rightarrow> 'row handle" where
  "db_close h = h\<lparr>closed := True\<rparr>"





definition Database_close :: "'row handle \<Rightarrow> 'row handle" where
  "Database_close h = (if \<not> is_closed h then db_close h else h)"

section \<open>Model instances\<close>

text \<open>
  A model instance holds the values of its fields by name; reading a field that has no
  value gives \<^verbatim>\<open>None\<close>.  Constructing an instance fills in the declared defaults
  (a callable default is called then) and assigns the keyword arguments over them.
  \<^verbatim>\<open>BaseModel\<close> declares \<^verbatim>\<open>created_date\<close> and \<^verbatim>\<open>modified_date\<close>, each with the
  default \<^verbatim>\<open>datetime.datetime.now\<close>; the two readings of the clock are arguments.
\<close>

type_synonym fields = "string \<rightharpoonup> pyval"

definition getattr :: "fields \<Rightarrow> string \<Rightarrow> pyval" where
  "getattr self f = (case self f of None \<Rightarrow> PyNone | Some v \<Rightarrow> v)"

definition Model_init :: "(string \<times> pyval) list \<Rightarrow> (string \<times> pyval) list \<Rightarrow> fields" where
  "Model_init defaults kwargs = map_of defaults ++ map_of kwargs"

definition BaseModel_defaults :: "int \<Rightarrow> int \<Rightarrow> (string \<times> pyval) list" where
  "BaseModel_defaults now1 now2 =
     [(''created_date'', PyDateTime now1), (''modified_date'', PyDateTime now2)]"

definition BaseModel_init :: "int \<Rightarrow> int \<Rightarrow> (string \<times> pyval) list \<Rightarrow> fields" where
  "BaseModel_init now1 now2 kwargs = Model_init (BaseModel_defaults now1 now2) kwargs"

text \<open>
  \<^verbatim>\<open>Payment\<close> adds the default \<^verbatim>\<open>PaymentStatus.awaiting\<close> for \<^verbatim>\<open>status\<close>, and its
  constructor replaces a \<^verbatim>\<open>details\<close> that is \<^verbatim>\<open>None\<close> by an empty dictionary.
\<close>

definition Payment_defaults :: "int \<Rightarrow> int \<Rightarrow> (string \<times> pyval) list" where
  "Payment_defaults now1 now2 =
     (''status'', PyEnum ''PaymentStatus'' ''awaiting'' 1) # BaseModel_defaults now1 now2"

definition Payment_init :: "int \<Rightarrow> int \<Rightarrow> (string \<times> pyval) list \<Rightarrow> fields" where
  "Payment_init now1 now2 kwargs =
     (let self = Model_init (Payment_defaults now1 now2) kwargs
      in if getattr self ''details'' = PyNone then self(''details'' \<mapsto> PyDict []) else self)"

text \<open>
  No model class overrides \<^verbatim>\<open>save\<close>.  The inherited method writes the instance to
  its table: when the primary key has a value it updates the rows with that key, otherwise
  it inserts a row and stores the key that the engine reports in the primary key field.
  The value of a composite key is the tuple of its parts and so is never \<^verbatim>\<open>None\<close>.
  Assigning to a field stores the value under the field's name.
\<close>

definition pk_value :: "entity \<Rightarrow> fields \<Rightarrow> pyval" where
  "pk_value e self =
     (case primary_key e of
        [f] \<Rightarrow> getattr self f
      | fs \<Rightarrow> PyTuple (map (getattr self) fs))"

definition Model_save ::
  "entity \<Rightarrow> pyval \<Rightarrow> fields \<times> fields list \<Rightarrow> fields \<times> fields list" where
  "Model_save e pk_from_cursor st =
     (let (self, rows) = st in
      if pk_value e self \<noteq> PyNone then
        (self, map (\<lambda>r. if pk_value e r = pk_value e self then r ++ self else r) rows)
      else
        (let self' = (case primary_key e of
                        [f] \<Rightarrow> if pk_from_cursor \<noteq> PyNone then self(f \<mapsto> pk_from_cursor) else self
                      | fs \<Rightarrow> self)
         in (self', rows @ [self'])))"

datatype action = Assign string pyval | Save pyval

fun apply_op :: "entity \<Rightarrow> fields \<times> fields list \<Rightarrow> action \<Rightarrow> fields \<times> fields list" where
  "apply_op e (self, rows) (Assign f v) = (self(f \<mapsto> v), rows)"
| "apply_op e (self, rows) (Save pk_from_cursor) = Model_save e pk_from_cursor (self, rows)"

definition run_ops :: "entity \<Rightarrow> action list \<Rightarrow> fields \<times> fields list \<Rightarrow> fields \<times> fields list" where
  "run_ops e ops st = foldl (apply_op e) st ops"

fun assigns :: "string \<Rightarrow> action \<Rightarrow> bool" where
  "assigns f (Assign g v) = (f = g)"
| "assigns f (Save pk_from_cursor) = False"

section \<open>Auxiliary notions for the proofs\<close>


text \<open>A text of hexadecimal digits only, and the number it denotes after \<open>acc\<close>.\<close>

definition all_hex :: "string \<Rightarrow> bool" where
  "all_hex s = (\<forall>c \<in> set s. hex_digit c \<noteq> None)"

definition hex_value :: "nat \<Rightarrow> string \<Rightarrow> nat" where
  "hex_value acc s = foldl (\<lambda>a c. 16 * a + the (hex_digit c)) acc s"





text \<open>
  A scanner makes progress on a text when it does not use up its budget and, where it
  succeeds, leaves less of the text than it was given.
\<close>

definition progresses :: "error + 'a \<times> string \<Rightarrow> string \<Rightarrow> bool" where
  "progresses res s =
     (case res of Inl err \<Rightarrow> err \<noteq> RecursionError | Inr (v, r) \<Rightarrow> length r < length s)"

section \<open>Hexadecimal text: properties\<close>

lemma hex_digit_hex_char: "d < 16 \<Longrightarrow> hex_digit (hex_char d) = Some d"
  by (auto simp: hex_digit_def hex_char_def Let_def)

lemma hex_digit_not_space: "hex_digit c = Some d \<Longrightarrow> \<not> is_space_str c \<and> \<not> is_space_ascii c"
  by (auto simp: hex_digit_def is_space_str_def is_space_ascii_def Let_def split: if_splits)

lemma hex_digit_plain:
  "hex_digit c = Some d \<Longrightarrow>
     c \<noteq> CHR ''_'' \<and> c \<noteq> CHR ''-'' \<and> c \<noteq> CHR ''+'' \<and> c \<noteq> CHR ''x'' \<and> c \<noteq> CHR ''X''"
  by (auto simp: hex_digit_def Let_def split: if_splits)

lemma all_hex_hex_of_nat: "all_hex (hex_of_nat n)"
proof (induction n rule: hex_of_nat.induct)
  case (1 n)
  show ?case
  proof (cases "n < 16")
    case True
    then show ?thesis
      by (simp add: hex_of_nat.simps[of n] all_hex_def hex_digit_hex_char)
  next
    case False
    with 1 show ?thesis
      by (simp add: hex_of_nat.simps[of n] all_hex_def hex_digit_hex_char)
  qed
qed

lemma hex_of_nat_nonempty: "hex_of_nat n \<noteq> []"
  by (subst hex_of_nat.simps) simp

lemma hex_value_hex_of_nat: "hex_value 0 (hex_of_nat n) = n"
proof (induction n rule: hex_of_nat.induct)
  case (1 n)
  show ?case
  proof (cases "n < 16")
    case True
    then show ?thesis
      by (simp add: hex_of_nat.simps[of n] hex_value_def hex_digit_hex_char)
  next
    case False
    with 1 show ?thesis
      by (simp add: hex_of_nat.simps[of n] hex_value_def hex_digit_hex_char)
  qed
qed

lemma int_digits16_all_hex:
  "all_hex s \<Longrightarrow> s \<noteq> [] \<Longrightarrow> int_digits16 acc us s = Some (hex_value acc s)"
proof (induction s arbitrary: acc us)
  case Nil
  then show ?case by simp
next
  case (Cons c cs)
  from Cons.prems obtain d where d: "hex_digit c = Some d"
    by (auto simp: all_hex_def)
  then have nus: "c \<noteq> CHR ''_''"
    using hex_digit_plain by blast
  show ?case
  proof (cases cs)
    case Nil
    with d nus show ?thesis by (simp add: hex_value_def)
  next
    case (Cons e es)
    with Cons.prems have "all_hex cs" "cs \<noteq> []"
      by (auto simp: all_hex_def)
    then have "int_digits16 (16 * acc + d) False cs = Some (hex_value (16 * acc + d) cs)"
      by (rule Cons.IH)
    with d nus show ?thesis by (simp add: hex_value_def)
  qed
qed

lemma skip_prefix16_all_hex: "all_hex s \<Longrightarrow> skip_prefix16 s = s"
proof (cases s rule: skip_prefix16.cases)
  case (1 a b cs)
  assume "all_hex s"
  with 1 obtain d where "hex_digit b = Some d"
    by (auto simp: all_hex_def)
  then have "b \<noteq> CHR ''x''" "b \<noteq> CHR ''X''"
    using hex_digit_plain by blast+
  with 1 show ?thesis by simp
qed simp_all

lemma int_magnitude16_hex_of_nat: "int_magnitude16 (hex_of_nat n) = Some n"
proof -
  obtain c cs where s: "hex_of_nat n = c # cs"
    using hex_of_nat_nonempty by (cases "hex_of_nat n") auto
  have ah: "all_hex (c # cs)"
    using all_hex_hex_of_nat[of n] s by simp
  then obtain d where "hex_digit c = Some d"
    by (auto simp: all_hex_def)
  then have "c \<noteq> CHR ''_''"
    using hex_digit_plain by blast
  moreover have "int_digits16 0 False (c # cs) = Some n"
    using int_digits16_all_hex[OF ah, of 0 False] hex_value_hex_of_nat[of n] s by simp
  ultimately show ?thesis
    using skip_prefix16_all_hex[OF ah] s by (simp add: int_magnitude16_def)
qed

lemma dropWhile_none: "\<forall>c \<in> set s. \<not> sp c \<Longrightarrow> dropWhile sp s = s"
  by (cases s) simp_all

lemma strip_no_space: "\<forall>c \<in> set s. \<not> sp c \<Longrightarrow> strip sp s = s"
proof -
  assume a: "\<forall>c \<in> set s. \<not> sp c"
  then have "dropWhile sp s = s"
    by (rule dropWhile_none)
  moreover from a have "\<forall>c \<in> set (rev s). \<not> sp c"
    by simp
  then have "dropWhile sp (rev s) = rev s"
    by (rule dropWhile_none)
  ultimately show ?thesis by (simp add: strip_def)
qed

lemma hex_of_nat_no_space:
  "\<forall>c \<in> set (hex_of_nat n). \<not> is_space_str c \<and> \<not> is_space_ascii c"
  using all_hex_hex_of_nat[of n] hex_digit_not_space by (auto simp: all_hex_def)

lemma int_base16_format_x: "int_base16 is_space_str (format_x v) = Inr v"
proof (cases "v < 0")
  case True
  have "\<forall>c \<in> set (CHR ''-'' # hex_of_nat (nat (- v))). \<not> is_space_str c"
    using hex_of_nat_no_space by (simp add: is_space_str_def)
  then have "strip is_space_str (CHR ''-'' # hex_of_nat (nat (- v))) = CHR ''-'' # hex_of_nat (nat (- v))"
    by (rule strip_no_space)
  with True show ?thesis
    by (simp add: int_base16_def format_x_def int_magnitude16_hex_of_nat)
next
  case False
  obtain c cs where s: "hex_of_nat (nat v) = c # cs"
    using hex_of_nat_nonempty by (cases "hex_of_nat (nat v)") auto
  have "all_hex (c # cs)"
    using all_hex_hex_of_nat[of "nat v"] s by simp
  then obtain d where "hex_digit c = Some d"
    by (auto simp: all_hex_def)
  then have c: "c \<noteq> CHR ''-''" "c \<noteq> CHR ''+''"
    using hex_digit_plain by blast+
  have "strip is_space_str (hex_of_nat (nat v)) = hex_of_nat (nat v)"
    using hex_of_nat_no_space by (intro strip_no_space) blast
  then have st: "strip is_space_str (hex_of_nat (nat v)) = c # cs"
    using s by simp
  have "int_magnitude16 (c # cs) = Some (nat v)"
    using int_magnitude16_hex_of_nat[of "nat v"] s by simp
  with False c st show ?thesis
    by (simp add: int_base16_def format_x_def)
qed


section \<open>Codecs: properties\<close>

lemma byte_halves: "of_nat (16 * (unat b div 16) + unat b mod 16) = (b :: byte)"
  by simp

lemma decode_encode_hex: "decode_hex (encode_hex bs) = Inr bs"
proof (induction bs)
  case Nil
  then show ?case by (simp add: encode_hex_def)
next
  case (Cons b bs)
  have "unat b < 2 ^ 8"
    using unsigned_less[of b, where 'a = nat] by simp
  then have lt: "unat b div 16 < 16" "unat b mod 16 < 16"
    by simp_all
  have "decode_hex (encode_hex (b # bs)) =
          decode_hex (hex_char (unat b div 16) # hex_char (unat b mod 16) # encode_hex bs)"
    by (simp add: encode_hex_def)
  also have "\<dots> = Inr (of_nat (16 * (unat b div 16) + unat b mod 16) # bs)"
    using Cons lt by (simp add: hex_digit_hex_char)
  finally show ?case
    by (simp only: byte_halves)
qed

lemma decode_hex_odd: "odd (length s) \<Longrightarrow> decode_hex s = Inl FormatError"
  by (induction s rule: decode_hex.induct) (auto split: option.splits sum.splits)

lemma decode_hex_non_hex: "\<exists>c \<in> set s. hex_digit c = None \<Longrightarrow> decode_hex s = Inl FormatError"
proof (induction s rule: decode_hex.induct)
  case (3 a b cs)
  show ?case
  proof (cases "hex_digit a")
    case None
    then show ?thesis by simp
  next
    case xa: (Some x)
    show ?thesis
    proof (cases "hex_digit b")
      case None
      with xa show ?thesis by simp
    next
      case yb: (Some y)
      with xa "3.prems" have "\<exists>c \<in> set cs. hex_digit c = None"
        by auto
      then have "decode_hex cs = Inl FormatError"
        by (rule "3.IH"[OF xa yb])
      with xa yb show ?thesis by simp
    qed
  qed
qed simp_all

lemma find_Some_set: "find P xs = Some y \<Longrightarrow> y \<in> set xs \<and> P y"
  by (induction xs) (auto split: if_splits)

lemma enum_value_error: "i \<notin> snd ` set (enum_members et) \<Longrightarrow> EnumField_python_value et (PyInt i) = Inl ValueError"
  by (auto simp: EnumField_python_value_def enum_call_def isinstance_enum_def isinstance_int_def
      int_of_pyval_def member_of_value_def split: option.splits dest!: find_Some_set)

section \<open>Schema, handle and instances: properties\<close>

lemma drop_each_version: "user_version (drop_each es db) = user_version db"
  by (induction es arbitrary: db) (simp_all add: drop_table_def)

lemma drop_each_executed:
  "executed (drop_each es db) = executed db @ map (\<lambda>e. DropTable (entity_name e)) es"
  by (induction es arbitrary: db) (simp_all add: drop_table_def)

lemma drop_each_rows:
  "table_rows (drop_each es db) n =
     (if n \<in> entity_name ` set es then None else table_rows db n)"
  by (induction es arbitrary: db) (simp_all add: drop_table_def)

lemma create_each_version: "user_version (create_each es db) = user_version db"
  by (induction es arbitrary: db) (simp_all add: create_table_def)

lemma create_each_executed:
  "executed (create_each es db) = executed db @ map (\<lambda>e. EnsureTable (entity_name e)) es"
  by (induction es arbitrary: db) (simp_all add: create_table_def)

lemma create_each_rows:
  "table_rows (create_each es db) n =
     (if n \<in> entity_name ` set es
      then (case table_rows db n of None \<Rightarrow> Some [] | Some rows \<Rightarrow> Some rows)
      else table_rows db n)"
  by (induction es arbitrary: db) (auto simp: create_table_def split: option.splits)

lemma drop_tables_version: "user_version (drop_tables es db) = user_version db"
  by (simp add: drop_tables_def drop_each_version)

lemma drop_tables_executed:
  "executed (drop_tables es db) = executed db @ map (\<lambda>e. DropTable (entity_name e)) (rev es)"
  by (simp add: drop_tables_def drop_each_executed)

lemma drop_tables_rows:
  "table_rows (drop_tables es db) n =
     (if n \<in> entity_name ` set es then None else table_rows db n)"
  by (simp add: drop_tables_def drop_each_rows)

lemma create_tables_version: "user_version (create_tables es db) = user_version db"
  by (simp add: create_tables_def create_each_version)

lemma create_tables_executed:
  "executed (create_tables es db) = executed db @ map (\<lambda>e. EnsureTable (entity_name e)) es"
  by (simp add: create_tables_def create_each_executed)

lemma create_tables_rows:
  "table_rows (create_tables es db) n =
     (if n \<in> entity_name ` set es
      then (case table_rows db n of None \<Rightarrow> Some [] | Some rows \<Rightarrow> Some rows)
      else table_rows db n)"
  by (simp add: create_tables_def create_each_rows)

lemma create_database_at_version:
  "user_version (create_database_at v db) = (if user_version db = v then v else pragma_value v)"
  by (simp add: create_database_at_def get_user_version_def set_user_version_def
      create_tables_version drop_tables_version)

lemma create_database_at_version_int32:
  "- (2 ^ 31) \<le> v \<Longrightarrow> v < 2 ^ 31 \<Longrightarrow> user_version (create_database_at v db) = v"
  by (simp add: create_database_at_version pragma_value_def)

lemma create_database_at_executed:
  "executed (create_database_at v db) =
     executed db @ [ReadVersion] @
     (if user_version db \<noteq> v
      then map (\<lambda>e. DropTable (entity_name e)) (rev tables) @ [WriteVersion v]
      else []) @
     map (\<lambda>e. EnsureTable (entity_name e)) tables"
  by (simp add: create_database_at_def get_user_version_def set_user_version_def
      create_tables_executed drop_tables_executed)

lemma create_database_at_executed_differs:
  "user_version db \<noteq> v \<Longrightarrow>
   executed (create_database_at v db) =
     executed db @ [ReadVersion] @ map (\<lambda>e. DropTable (entity_name e)) (rev tables)
       @ [WriteVersion v] @ map (\<lambda>e. EnsureTable (entity_name e)) tables"
  by (simp add: create_database_at_executed)

lemma create_database_at_rows:
  "table_rows (create_database_at v db) n =
     (if n \<in> entity_name ` set tables
      then (if user_version db \<noteq> v then Some []
            else (case table_rows db n of None \<Rightarrow> Some [] | Some rows \<Rightarrow> Some rows))
      else table_rows db n)"
  by (simp add: create_database_at_def get_user_version_def set_user_version_def
      create_tables_rows drop_tables_rows)




lemma getattr_Model_save:
  "primary_key e \<noteq> [f] \<Longrightarrow> getattr (fst (Model_save e c st)) f = getattr (fst st) f"
  by (cases st) (auto simp: Model_save_def Let_def getattr_def split: list.splits)

lemma getattr_apply_op:
  "primary_key e \<noteq> [f] \<Longrightarrow> \<not> assigns f a \<Longrightarrow>
     getattr (fst (apply_op e st a)) f = getattr (fst st) f"
  by (cases st; cases a) (simp_all add: getattr_Model_save, simp add: getattr_def)

lemma getattr_run_ops:
  "primary_key e \<noteq> [f] \<Longrightarrow> \<forall>a \<in> set ops. \<not> assigns f a \<Longrightarrow>
     getattr (fst (run_ops e ops st)) f = getattr (fst st) f"
  unfolding run_ops_def
  by (induction ops arbitrary: st) (simp_all add: getattr_apply_op)

lemma tables_primary_key: "e \<in> set tables \<Longrightarrow> primary_key e \<noteq> [''modified_date'']"
  by (auto simp: tables_def Account_def ExpectedIncome_def GlobalRank_def HardwarePreset_def
      Income_def KnownHosts_def LocalRank_def NeighbourLocRank_def Payment_def
      ReceivedPayment_def Stats_def TaskPreset_def)

lemma modified_default:
  "''modified_date'' \<notin> fst ` set kwargs \<Longrightarrow>
   getattr (BaseModel_init now1 now2 kwargs) ''modified_date'' = PyDateTime now2"
  by (simp add: BaseModel_init_def Model_init_def BaseModel_defaults_def getattr_def
      map_add_def map_of_eq_None_iff[THEN iffD2])


section \<open>JSON text and jsonpickle: properties\<close>












































text \<open>The budget of \<open>json_loads\<close> is never used up.\<close>

lemma skip_ws_length: "length (skip_ws s) \<le> length s"
  by (simp add: skip_ws_def length_dropWhile_le)

lemma scanstring_props:
  "(\<forall>str r. scanstring s = Inr (str, r) \<longrightarrow> length r < length s)
   \<and> scanstring s \<noteq> Inl RecursionError"
proof (induction s rule: length_induct)
  case (1 s)
  then have IH: "length r < length t"
    if "length t < length s" "scanstring t = Inr (str, r)" for t str r
    using that by blast
  from 1 have IH2: "scanstring t \<noteq> Inl RecursionError" if "length t < length s" for t
    using that by blast
  show ?case
  proof (cases s)
    case Nil
    then show ?thesis by simp
  next
    case (Cons c t)
    show ?thesis
    proof (cases "c = CHR 0x22 \<or> (c \<noteq> CHR 0x5C \<and> (of_char c :: nat) < 32)")
      case True
      with Cons show ?thesis by auto
    next
      case False
      show ?thesis
      proof (cases "c = CHR 0x5C")
        case plainc: False
        with False Cons have eq: "scanstring s =
            (case scanstring t of Inl err \<Rightarrow> Inl err | Inr (s', r3) \<Rightarrow> Inr (c # s', r3))"
          by simp
        have lt: "length t < length s"
          using Cons by simp
        show ?thesis
          unfolding eq using IH [OF lt] IH2 [OF lt] lt
          by (auto split: sum.splits)
      next
        case True
        show ?thesis
        proof (cases t)
          case Nil
          with True Cons show ?thesis by simp
        next
          case t: (Cons e r1)
          have l1: "length r1 < length s"
            using Cons t by simp
          show ?thesis
          proof (cases "e = CHR ''u''")
            case False
            with True Cons t have eq: "scanstring s =
              (case unescape e of
                  None \<Rightarrow> Inl ValueError
                | Some ch \<Rightarrow>
                    (case scanstring r1 of
                       Inl err \<Rightarrow> Inl err
                     | Inr (s', r3) \<Rightarrow> Inr (ch # s', r3)))"
              by simp
            show ?thesis
              unfolding eq using IH [OF l1] IH2 [OF l1] l1
              by (auto split: sum.splits option.splits)
          next
            case u: True
            show ?thesis
            proof (cases "\<exists>a b c d r2. r1 = a # b # c # d # r2")
              case False
              then have "scanstring s = Inl ValueError"
                using True Cons t u by (auto split: list.splits)
              then show ?thesis by simp
            next
              case True
              then obtain a b c' d r2 where r1: "r1 = a # b # c' # d # r2"
                by blast
              have l2: "length r2 < length s"
                using l1 r1 by simp
              from \<open>c = CHR 0x5C\<close> Cons t u r1 have eq: "scanstring s =
                  (case parse_hex4 a b c' d of
                       None \<Rightarrow> Inl ValueError
                     | Some n \<Rightarrow>
                         if 256 \<le> n then Inl NotModelled
                         else (case scanstring r2 of
                                 Inl err \<Rightarrow> Inl err
                               | Inr (s', r3) \<Rightarrow> Inr (char_of n # s', r3)))"
                by simp
              show ?thesis
                unfolding eq using IH [OF l2] IH2 [OF l2] l2
                by (auto split: sum.splits option.splits)
            qed
          qed
        qed
      qed
    qed
  qed
qed


lemma scanstring_shorter: "scanstring s = Inr (str, r) \<Longrightarrow> length r < length s"
  using scanstring_props [of s] by blast

lemma scanstring_budget: "scanstring s \<noteq> Inl RecursionError"
  using scanstring_props [of s] by blast

lemma dropWhile_digit_shorter:
  "is_digit c \<Longrightarrow> length (dropWhile is_digit (c # r)) < Suc (length r)"
  using length_dropWhile_le [of is_digit r] by simp

lemma scan_magnitude_props:
  "scan_magnitude s \<noteq> Inl RecursionError
   \<and> (\<forall>n r. scan_magnitude s = Inr (n, r) \<longrightarrow> length r < length s)"
  using dropWhile_digit_shorter
  by (cases s) (auto simp: scan_magnitude_def Let_def simp del: dropWhile.simps split: if_splits)

lemma scan_number_props:
  "scan_number s \<noteq> Inl RecursionError
   \<and> (\<forall>v r. scan_number s = Inr (v, r) \<longrightarrow> length r < length s)"
proof (cases s)
  case Nil
  then show ?thesis by (simp add: scan_number_def)
next
  case (Cons c t)
  show ?thesis
    using scan_magnitude_props [of s] scan_magnitude_props [of t] Cons
    by (auto simp: scan_number_def split: if_splits sum.splits)
qed

lemma starts_with_drop:
  "starts_with p s \<Longrightarrow> p \<noteq> [] \<Longrightarrow> length (drop (length p) s) < length s"
  by (cases s) (auto simp: starts_with_def)


lemma progressesI:
  "res \<noteq> Inl RecursionError \<Longrightarrow> (\<And>v r. res = Inr (v, r) \<Longrightarrow> length r < length s) \<Longrightarrow>
   progresses res s"
  by (auto simp: progresses_def split: sum.splits)

lemma progresses_Inl [simp]: "progresses (Inl err) s \<longleftrightarrow> err \<noteq> RecursionError"
  by (simp add: progresses_def)

lemma progresses_Inr [simp]: "progresses (Inr (v, r)) s \<longleftrightarrow> length r < length s"
  by (simp add: progresses_def)

lemma progresses_scanstring: "progresses (scanstring s) s"
  using scanstring_shorter scanstring_budget by (intro progressesI) auto

lemma progresses_scan_number: "progresses (scan_number s) s"
  using scan_number_props [of s] by (intro progressesI) auto

lemma progresses_weaken:
  "progresses res t \<Longrightarrow> length t \<le> length s \<Longrightarrow> progresses res s"
  by (auto simp: progresses_def split: sum.splits)

lemma progresses_map:
  "progresses res t \<Longrightarrow> length t \<le> length s \<Longrightarrow>
   progresses (case res of Inl err \<Rightarrow> Inl err | Inr (v, r) \<Rightarrow> Inr (f v, r)) s"
  by (auto simp: progresses_def split: sum.splits)

lemma scan_value_progress:
  assumes E: "\<And>s. 2 * length s + 2 \<le> n \<Longrightarrow> progresses (scan_elems n s) s"
    and M: "\<And>s. 2 * length s + 2 \<le> n \<Longrightarrow> progresses (scan_members n s) s"
    and n: "2 * length s < Suc n"
  shows "progresses (scan_value (Suc n) s) s"
proof (cases s)
  case Nil
  then show ?thesis by simp
next
  case (Cons c r)
  have lr: "length r < length s"
    using Cons by simp
  consider (str) "c = CHR 0x22" | (obj) "c = CHR ''{''" | (arr) "c = CHR ''[''"
    | (other) "c \<noteq> CHR 0x22" "c \<noteq> CHR ''{''" "c \<noteq> CHR ''[''"
    by blast
  then show ?thesis
  proof cases
    case str
    have "progresses (case scanstring r of Inl err \<Rightarrow> Inl err
                      | Inr (str, r') \<Rightarrow> Inr (JStr str, r')) s"
      using progresses_scanstring [of r] lr by (intro progresses_map) auto
    with str Cons show ?thesis by simp
  next
    case obj
    show ?thesis
    proof (cases "skip_ws r")
      case Nil
      with obj Cons show ?thesis by simp
    next
      case ws: (Cons d r')
      have l: "length (d # r') \<le> length r"
        using skip_ws_length [of r] ws by simp
      show ?thesis
      proof (cases "d = CHR ''}''")
        case True
        with obj Cons ws l show ?thesis by simp
      next
        case False
        have "2 * length (d # r') + 2 \<le> n"
          using l n Cons by simp
        then have "progresses (scan_members n (d # r')) (d # r')"
          by (rule M)
        then have "progresses (case scan_members n (d # r') of Inl err \<Rightarrow> Inl err
                      | Inr (items, r'') \<Rightarrow> Inr (JObj (dict_of_items items), r'')) s"
          using l lr by (intro progresses_map) auto
        with obj Cons ws False show ?thesis by simp
      qed
    qed
  next
    case arr
    show ?thesis
    proof (cases "skip_ws r")
      case Nil
      with arr Cons show ?thesis by simp
    next
      case ws: (Cons d r')
      have l: "length (d # r') \<le> length r"
        using skip_ws_length [of r] ws by simp
      show ?thesis
      proof (cases "d = CHR '']''")
        case True
        with arr Cons ws l show ?thesis by simp
      next
        case False
        have "2 * length (d # r') + 2 \<le> n"
          using l n Cons by simp
        then have "progresses (scan_elems n (d # r')) (d # r')"
          by (rule E)
        then have "progresses (case scan_elems n (d # r') of Inl err \<Rightarrow> Inl err
                      | Inr (xs, r'') \<Rightarrow> Inr (JArr xs, r'')) s"
          using l lr by (intro progresses_map) auto
        with arr Cons ws False show ?thesis by simp
      qed
    qed
  next
    case other
    have d4: "length (drop 4 s) < length s" if "starts_with p s" "length p = 4" for p
    proof -
      from that have "p \<noteq> []" by auto
      with starts_with_drop [of p s] that show ?thesis by simp
    qed
    have d5: "length (drop 5 s) < length s" if "starts_with p s" "length p = 5" for p
    proof -
      from that have "p \<noteq> []" by auto
      with starts_with_drop [of p s] that show ?thesis by simp
    qed
    have "scan_value (Suc n) s =
       (if starts_with ''null'' s then Inr (JNull, drop 4 s)
          else if starts_with ''true'' s then Inr (JBool True, drop 4 s)
          else if starts_with ''false'' s then Inr (JBool False, drop 5 s)
          else if starts_with ''NaN'' s \<or> starts_with ''Infinity'' s then Inl NotModelled
          else scan_number s)"
      using other Cons by simp
    then show ?thesis
      using d4 [of "''null''"] d4 [of "''true''"] d5 [of "''false''"] progresses_scan_number [of s]
      by simp
  qed
qed


lemma scan_elems_progress:
  assumes V: "\<And>s. 2 * length s < n \<Longrightarrow> progresses (scan_value n s) s"
    and E: "\<And>s. 2 * length s + 2 \<le> n \<Longrightarrow> progresses (scan_elems n s) s"
    and n: "2 * length s + 2 \<le> Suc n"
  shows "progresses (scan_elems (Suc n) s) s"
proof (cases "scan_value n s")
  case (Inl err)
  moreover have "progresses (scan_value n s) s"
    using n by (intro V) simp
  ultimately show ?thesis by simp
next
  case (Inr p)
  obtain x r where p: "p = (x, r)"
    by (cases p)
  have "progresses (scan_value n s) s"
    using n by (intro V) simp
  with Inr p have lr: "length r < length s"
    by simp
  show ?thesis
  proof (cases "skip_ws r")
    case Nil
    with Inr p show ?thesis by simp
  next
    case (Cons d r')
    have l: "Suc (length r') \<le> length r"
      using skip_ws_length [of r] Cons by simp
    consider (close) "d = CHR '']''" | (comma) "d \<noteq> CHR '']''" "d = CHR '',''"
      | (bad) "d \<noteq> CHR '']''" "d \<noteq> CHR '',''"
      by blast
    then show ?thesis
    proof cases
      case close
      with Inr p Cons l lr show ?thesis by simp
    next
      case comma
      have ls: "length (skip_ws r') \<le> length r'"
        by (rule skip_ws_length)
      then have "2 * length (skip_ws r') + 2 \<le> n"
        using l lr n by simp
      then have "progresses (scan_elems n (skip_ws r')) (skip_ws r')"
        by (rule E)
      then have "progresses (case scan_elems n (skip_ws r') of Inl err \<Rightarrow> Inl err
                    | Inr (xs, r'') \<Rightarrow> Inr (x # xs, r'')) s"
        using ls l lr by (intro progresses_map) auto
      with Inr p Cons comma show ?thesis by simp
    next
      case bad
      with Inr p Cons show ?thesis by simp
    qed
  qed
qed

lemma scan_members_progress:
  assumes V: "\<And>s. 2 * length s < n \<Longrightarrow> progresses (scan_value n s) s"
    and M: "\<And>s. 2 * length s + 2 \<le> n \<Longrightarrow> progresses (scan_members n s) s"
    and n: "2 * length s + 2 \<le> Suc n"
  shows "progresses (scan_members (Suc n) s) s"
proof (cases s)
  case Nil
  then show ?thesis by simp
next
  case (Cons q r0)
  show ?thesis
  proof (cases "q = CHR 0x22")
    case False
    with Cons show ?thesis by simp
  next
    case q: True
    show ?thesis
    proof (cases "scanstring r0")
      case (Inl err)
      with progresses_scanstring [of r0] q Cons show ?thesis by simp
    next
      case (Inr p)
      obtain k r1 where p: "p = (k, r1)"
        by (cases p)
      from progresses_scanstring [of r0] Inr p have l1: "length r1 < length r0"
        by simp
      show ?thesis
      proof (cases "skip_ws r1")
        case Nil
        with Inr p q Cons show ?thesis by simp
      next
        case c1: (Cons col r2)
        have l2: "Suc (length r2) \<le> length r1"
          using skip_ws_length [of r1] c1 by simp
        show ?thesis
        proof (cases "col = CHR '':''")
          case False
          with Inr p q Cons c1 show ?thesis by simp
        next
          case col: True
          have l3: "length (skip_ws r2) \<le> length r2"
            by (rule skip_ws_length)
          have pv: "progresses (scan_value n (skip_ws r2)) (skip_ws r2)"
            using l3 l2 l1 n Cons by (intro V) simp
          show ?thesis
          proof (cases "scan_value n (skip_ws r2)")
            case vl: (Inl err)
            with pv Inr p q Cons c1 col show ?thesis by simp
          next
            case vr: (Inr pv')
            obtain v r3 where pv': "pv' = (v, r3)"
              by (cases pv')
            from pv vr pv' have l4: "length r3 < length (skip_ws r2)"
              by simp
            show ?thesis
            proof (cases "skip_ws r3")
              case Nil
              with vr pv' Inr p q Cons c1 col show ?thesis by simp
            next
              case c3: (Cons d r4)
              have l5: "Suc (length r4) \<le> length r3"
                using skip_ws_length [of r3] c3 by simp
              consider (close) "d = CHR ''}''" | (comma) "d \<noteq> CHR ''}''" "d = CHR '',''"
                | (bad) "d \<noteq> CHR ''}''" "d \<noteq> CHR '',''"
                by blast
              then show ?thesis
              proof cases
                case close
                have "length r4 < length s"
                  using l5 l4 l3 l2 l1 Cons by simp
                with close vr pv' Inr p q Cons c1 col c3 show ?thesis by simp
              next
                case comma
                have l6: "length (skip_ws r4) \<le> length r4"
                  by (rule skip_ws_length)
                then have "2 * length (skip_ws r4) + 2 \<le> n"
                  using l5 l4 l3 l2 l1 n Cons by simp
                then have "progresses (scan_members n (skip_ws r4)) (skip_ws r4)"
                  by (rule M)
                then have "progresses (case scan_members n (skip_ws r4) of Inl err \<Rightarrow> Inl err
                    | Inr (items, r5) \<Rightarrow> Inr ((k, v) # items, r5)) s"
                  using l6 l5 l4 l3 l2 l1 Cons by (intro progresses_map) auto
                with comma vr pv' Inr p q Cons c1 col c3 show ?thesis by simp
              next
                case bad
                with vr pv' Inr p q Cons c1 col c3 show ?thesis by simp
              qed
            qed
          qed
        qed
      qed
    qed
  qed
qed

lemma scan_progress:
  "(\<forall>s. 2 * length s < n \<longrightarrow> progresses (scan_value n s) s)
   \<and> (\<forall>s. 2 * length s + 2 \<le> n \<longrightarrow> progresses (scan_elems n s) s)
   \<and> (\<forall>s. 2 * length s + 2 \<le> n \<longrightarrow> progresses (scan_members n s) s)"
proof (induction n)
  case 0
  then show ?case by simp
next
  case (Suc n)
  show ?case
  proof (intro conjI allI impI)
    fix s :: string
    assume "2 * length s < Suc n"
    with Suc show "progresses (scan_value (Suc n) s) s"
      by (intro scan_value_progress) blast+
  next
    fix s :: string
    assume "2 * length s + 2 \<le> Suc n"
    with Suc show "progresses (scan_elems (Suc n) s) s"
      by (intro scan_elems_progress) blast+
  next
    fix s :: string
    assume "2 * length s + 2 \<le> Suc n"
    with Suc show "progresses (scan_members (Suc n) s) s"
      by (intro scan_members_progress) blast+
  qed
qed

lemma json_loads_budget: "json_loads s \<noteq> Inl RecursionError"
proof -
  have "2 * length (skip_ws s) < Suc (2 * length s)"
    using skip_ws_length [of s] by simp
  then have "progresses (scan_value (Suc (2 * length s)) (skip_ws s)) (skip_ws s)"
    using scan_progress [of "Suc (2 * length s)"] by blast
  then show ?thesis
    unfolding json_loads_def
    by (cases "scan_value (Suc (2 * length s)) (skip_ws s)")
      (auto simp del: scan_value.simps split: if_splits)
qed

section \<open>The claims\<close>

subsection \<open>BigIntegerField\<close>

text \<open>
  C1.  For every non-negative integer \<open>v\<close>, of any size and so in particular up to and
  beyond \<open>2 ^ 256\<close>, reading back what \<^verbatim>\<open>BigIntegerField\<close> writes for \<open>v\<close> gives the
  integer \<open>v\<close> itself: \<^verbatim>\<open>python_value(db_value(v)) == v\<close>.  Nothing is cut to 64 bits.
\<close>

theorem BigIntegerField_roundtrip:
  "0 \<le> v \<Longrightarrow>
     roundtrip BigIntegerField_db_value BigIntegerField_python_value (PyInt v) = Inr (PyInt v)"
  by (simp add: roundtrip_def BigIntegerField_db_value_def BigIntegerField_python_value_def
      isinstance_int_def int_of_pyval_def int_base16_format_x)

theorem BigIntegerField_roundtrip_witness:
  "(0 :: int) \<le> 2 ^ 256 \<and>
   roundtrip BigIntegerField_db_value BigIntegerField_python_value (PyInt (2 ^ 256))
     = Inr (PyInt (2 ^ 256))"
  using BigIntegerField_roundtrip [of "2 ^ 256"] by simp

text \<open>
  C5, as the code has it.  \<^verbatim>\<open>db_value\<close> raises \<^verbatim>\<open>TypeError\<close> for every value that
  is not an instance of \<^verbatim>\<open>int\<close>.  \<^verbatim>\<open>python_value\<close> returns \<^verbatim>\<open>None\<close> unchanged: the
  guard of the method tests for \<^verbatim>\<open>None\<close> only.  An empty string is not taken for an
  absent value: it goes to \<^verbatim>\<open>int(value, 16)\<close>, which raises \<^verbatim>\<open>ValueError\<close>.
\<close>

theorem BigIntegerField_failures:
  "(\<not> isinstance_int v \<longrightarrow> BigIntegerField_db_value v = Inl TypeError)
   \<and> BigIntegerField_python_value PyNone = Inr PyNone
   \<and> BigIntegerField_python_value (PyStr []) = Inl ValueError"
  by (simp add: BigIntegerField_db_value_def BigIntegerField_python_value_def
      int_base16_def strip_def)

theorem BigIntegerField_failures_witness:
  "\<not> isinstance_int (PyStr ''12'')
   \<and> BigIntegerField_db_value (PyStr ''12'') = Inl TypeError
   \<and> BigIntegerField_python_value PyNone = Inr PyNone
   \<and> BigIntegerField_python_value (PyStr []) = Inl ValueError"
  using BigIntegerField_failures [of "PyStr ''12''"] by (simp add: isinstance_int_def)

text \<open>
  C5, as the claim states it, fails on the empty string: decoding it is not the
  identity, it raises \<^verbatim>\<open>ValueError\<close>.
\<close>

theorem BigIntegerField_empty_counterexample:
  "BigIntegerField_python_value (PyStr []) \<noteq> Inr (PyStr [])
   \<and> BigIntegerField_python_value (PyStr []) = Inl ValueError"
  by (simp add: BigIntegerField_python_value_def int_base16_def strip_def)

subsection \<open>EnumField\<close>

text \<open>
  C6.  For every member \<open>s\<close> of the declared enum, reading back what \<^verbatim>\<open>EnumField\<close>
  writes for \<open>s\<close> gives \<open>s\<close>.  Writing a value that is not a member of the declared enum
  raises \<^verbatim>\<open>TypeError\<close>.  Reading an integer that is the value of no member raises
  \<^verbatim>\<open>ValueError\<close>; no default member stands in for it.
\<close>

theorem EnumField_codec:
  "(isinstance_enum et s \<longrightarrow>
      roundtrip (EnumField_db_value et) (EnumField_python_value et) s = Inr s)
   \<and> (\<not> isinstance_enum et v \<longrightarrow> EnumField_db_value et v = Inl TypeError)
   \<and> (i \<notin> snd ` set (enum_members et) \<longrightarrow> EnumField_python_value et (PyInt i) = Inl ValueError)"
proof (intro conjI impI)
  assume "isinstance_enum et s"
  then show "roundtrip (EnumField_db_value et) (EnumField_python_value et) s = Inr s"
    by (auto simp: roundtrip_def EnumField_db_value_def EnumField_python_value_def
        enum_call_def isinstance_enum_def isinstance_int_def int_of_pyval_def
        split: pyval.splits)
next
  assume "\<not> isinstance_enum et v"
  then show "EnumField_db_value et v = Inl TypeError"
    by (simp add: EnumField_db_value_def)
next
  assume "i \<notin> snd ` set (enum_members et)"
  then show "EnumField_python_value et (PyInt i) = Inl ValueError"
    by (rule enum_value_error)
qed

theorem EnumField_codec_witness:
  "isinstance_enum PaymentStatus (PyEnum ''PaymentStatus'' ''sent'' 2)
   \<and> roundtrip (EnumField_db_value PaymentStatus) (EnumField_python_value PaymentStatus)
        (PyEnum ''PaymentStatus'' ''sent'' 2) = Inr (PyEnum ''PaymentStatus'' ''sent'' 2)
   \<and> \<not> isinstance_enum PaymentStatus (PyInt 2)
   \<and> EnumField_db_value PaymentStatus (PyInt 2) = Inl TypeError
   \<and> 4 \<notin> snd ` set (enum_members PaymentStatus)
   \<and> EnumField_python_value PaymentStatus (PyInt 4) = Inl ValueError"
  using EnumField_codec [of PaymentStatus "PyEnum ''PaymentStatus'' ''sent'' 2" "PyInt 2" 4]
  by (simp add: isinstance_enum_def PaymentStatus_def member_of_value_def)

subsection \<open>RawCharField\<close>

text \<open>
  C8.  For every byte sequence \<open>b\<close>, reading back what \<^verbatim>\<open>RawCharField\<close> writes for \<open>b\<close>
  gives \<open>b\<close>.  Reading a string of odd length, or one with a character that is not a
  hexadecimal digit, fails with a FormatError.
\<close>

theorem RawCharField_codec:
  "RawCharField_python_value (RawCharField_db_value b) = Inr b
   \<and> (odd (length s) \<or> (\<exists>c \<in> set s. hex_digit c = None) \<longrightarrow>
        RawCharField_python_value s = Inl FormatError)"
  using decode_hex_odd [of s] decode_hex_non_hex [of s]
  by (auto simp: RawCharField_python_value_def RawCharField_db_value_def decode_encode_hex)

theorem RawCharField_codec_witness:
  "RawCharField_python_value (RawCharField_db_value [0, 171, 255]) = Inr [0, 171, 255]
   \<and> odd (length ''0ag'')
   \<and> hex_digit (CHR ''g'') = None
   \<and> RawCharField_python_value ''0ag'' = Inl FormatError"
proof -
  have o: "odd (length ''0ag'')"
    by simp
  have g: "hex_digit (CHR ''g'') = None"
    by (simp add: hex_digit_def)
  from RawCharField_codec [of "[0, 171, 255]" "''0ag''"] o
  have "RawCharField_python_value (RawCharField_db_value [0, 171, 255]) = Inr [0, 171, 255]"
    and "RawCharField_python_value ''0ag'' = Inl FormatError"
    by blast+
  with o g show ?thesis
    by blast
qed

subsection \<open>Schema reconciliation\<close>

text \<open>
  C2, as the code has it.  Let the expected version be one that the marker can hold,
  \<open>- 2 ^ 31 \<le> v < 2 ^ 31\<close>.  When the stored version marker differs from it,
  \<^verbatim>\<open>create_database\<close> reads the marker, drops the table of every managed entity, writes
  the expected version to the marker and then creates all managed tables, in this order.
  Afterwards the marker reads the expected version and every managed table exists with
  no rows.  In particular a store at version \<open>N\<close> that is reconciled at \<open>N + 1\<close> ends
  with empty managed tables and the marker at \<open>N + 1\<close>.
\<close>

theorem create_database_version_mismatch:
  "- (2 ^ 31) \<le> v \<Longrightarrow> v < 2 ^ 31 \<Longrightarrow> user_version db \<noteq> v \<Longrightarrow>
     create_database_at v db =
       create_tables tables
         (set_user_version v (drop_tables tables (snd (get_user_version db))))
     \<and> executed (create_database_at v db) =
         executed db @ [ReadVersion] @ map (\<lambda>e. DropTable (entity_name e)) (rev tables)
           @ [WriteVersion v] @ map (\<lambda>e. EnsureTable (entity_name e)) tables
     \<and> user_version (create_database_at v db) = v
     \<and> (\<forall>e \<in> set tables. table_rows (create_database_at v db) (entity_name e) = Some [])
     \<and> (v = user_version db + 1 \<longrightarrow>
          user_version (create_database_at v db) = user_version db + 1
          \<and> (\<forall>e \<in> set tables. table_rows (create_database_at v db) (entity_name e) = Some []))"
  apply (intro conjI)
  subgoal by (simp add: create_database_at_def get_user_version_def)
  subgoal by (simp add: create_database_at_executed)
  subgoal by (simp add: create_database_at_version_int32)
  subgoal by (simp add: create_database_at_rows)
  subgoal by (simp add: create_database_at_version_int32 create_database_at_rows)
  done

theorem create_database_version_mismatch_witness:
  "- (2 ^ 31) \<le> (6 :: int) \<and> (6 :: int) < 2 ^ 31
   \<and> user_version \<lparr>user_version = 5, table_rows = [''Payment'' \<mapsto> [1 :: nat, 2]], executed = []\<rparr> \<noteq> 6
   \<and> user_version
        (create_database_at 6
           \<lparr>user_version = 5, table_rows = [''Payment'' \<mapsto> [1 :: nat, 2]], executed = []\<rparr>) = 6
   \<and> table_rows
        (create_database_at 6
           \<lparr>user_version = 5, table_rows = [''Payment'' \<mapsto> [1 :: nat, 2]], executed = []\<rparr>)
        (entity_name Payment) = Some []"
proof -
  let ?db = "\<lparr>user_version = 5, table_rows = [''Payment'' \<mapsto> [1 :: nat, 2]], executed = []\<rparr>"
  have lower: "- (2 ^ 31) \<le> (6 :: int)" and upper: "(6 :: int) < 2 ^ 31"
    by simp_all
  have differs: "user_version ?db \<noteq> 6"
    by simp
  have managed: "Payment \<in> set tables"
    by (simp add: tables_def)
  from create_database_version_mismatch [OF lower upper differs] managed
  have "user_version (create_database_at 6 ?db) = 6"
    and "table_rows (create_database_at 6 ?db) (entity_name Payment) = Some []"
    by blast+
  with lower upper differs show ?thesis
    by blast
qed

text \<open>
  C2, as the claim states it, fails for an expected version that the marker cannot hold:
  a store at version \<open>2 ^ 31 - 1\<close> that is reconciled at \<open>2 ^ 31\<close> has its tables
  dropped and created again, but its marker then reads 0 and not \<open>2 ^ 31\<close>.
\<close>

theorem create_database_version_overflow_counterexample:
  "user_version
     (create_database_at 2147483648
        \<lparr>user_version = 2147483647, table_rows = [''Payment'' \<mapsto> [1 :: nat, 2]],
           executed = []\<rparr>) = 0
   \<and> user_version
       (create_database_at 2147483648
          \<lparr>user_version = 2147483647, table_rows = [''Payment'' \<mapsto> [1 :: nat, 2]],
             executed = []\<rparr>) \<noteq> 2147483647 + 1"
  by (simp add: create_database_at_version pragma_value_def)

text \<open>
  C3, as the code has it.  Let the expected version be one that the marker can hold,
  \<open>- 2 ^ 31 \<le> v < 2 ^ 31\<close>.  Of two calls of \<^verbatim>\<open>create_database\<close> in a row with this
  expected version, only the first can drop tables and write the marker, and it does so
  exactly when the stored marker differs.  The second call reads the marker and asks for
  each managed table to be created if it does not exist, and nothing else: it drops no
  table, does not write the marker, and leaves the marker and every table as the first
  call left them.
\<close>

theorem create_database_twice:
  "- (2 ^ 31) \<le> v \<Longrightarrow> v < 2 ^ 31 \<Longrightarrow>
   executed (create_database_at v db) =
     executed db @ [ReadVersion] @
     (if user_version db \<noteq> v
      then map (\<lambda>e. DropTable (entity_name e)) (rev tables) @ [WriteVersion v]
      else []) @
     map (\<lambda>e. EnsureTable (entity_name e)) tables
   \<and> executed (create_database_at v (create_database_at v db)) =
       executed (create_database_at v db)
         @ ReadVersion # map (\<lambda>e. EnsureTable (entity_name e)) tables
   \<and> user_version (create_database_at v (create_database_at v db)) =
       user_version (create_database_at v db)
   \<and> table_rows (create_database_at v (create_database_at v db)) =
       table_rows (create_database_at v db)"
  apply (intro conjI)
  subgoal by (rule create_database_at_executed)
  subgoal
    by (simp add: create_database_at_executed [of v "create_database_at v db"]
        create_database_at_version_int32)
  subgoal by (simp add: create_database_at_version_int32)
  subgoal
    by (rule ext)
      (simp add: create_database_at_rows [of v "create_database_at v db"]
        create_database_at_version_int32,
       simp add: create_database_at_rows split: option.splits)
  done

theorem create_database_twice_witness:
  "- (2 ^ 31) \<le> (5 :: int) \<and> (5 :: int) < 2 ^ 31
   \<and> executed
       (create_database_at 5
          (create_database_at 5
             \<lparr>user_version = 4, table_rows = [''Payment'' \<mapsto> [1 :: nat, 2]], executed = []\<rparr>))
     = executed
         (create_database_at 5
            \<lparr>user_version = 4, table_rows = [''Payment'' \<mapsto> [1 :: nat, 2]], executed = []\<rparr>)
         @ ReadVersion # map (\<lambda>e. EnsureTable (entity_name e)) tables
   \<and> user_version
       (create_database_at 5
          (create_database_at 5
             \<lparr>user_version = 4, table_rows = [''Payment'' \<mapsto> [1 :: nat, 2]], executed = []\<rparr>))
     = 5"
proof -
  let ?db = "\<lparr>user_version = 4, table_rows = [''Payment'' \<mapsto> [1 :: nat, 2]], executed = []\<rparr>"
  have lower: "- (2 ^ 31) \<le> (5 :: int)" and upper: "(5 :: int) < 2 ^ 31"
    by simp_all
  from create_database_twice [OF lower upper, of ?db]
  have "executed (create_database_at 5 (create_database_at 5 ?db))
          = executed (create_database_at 5 ?db)
              @ ReadVersion # map (\<lambda>e. EnsureTable (entity_name e)) tables"
    and "user_version (create_database_at 5 (create_database_at 5 ?db))
          = user_version (create_database_at 5 ?db)"
    by blast+
  moreover have "user_version (create_database_at 5 ?db) = 5"
    by (simp add: create_database_at_version pragma_value_def)
  ultimately show ?thesis
    using lower upper by simp
qed

text \<open>
  C3, as the claim states it, fails for an expected version that the marker cannot hold.
  With the expected version \<open>2 ^ 31\<close> the first call leaves 0 in the marker, so the second
  call finds the marker different again: it drops every managed table and writes the
  marker a second time.
\<close>

theorem create_database_twice_overflow_counterexample:
  "user_version
     (create_database_at 2147483648
        \<lparr>user_version = 5, table_rows = [''Payment'' \<mapsto> [1 :: nat, 2]], executed = []\<rparr>) = 0
   \<and> executed
       (create_database_at 2147483648
          (create_database_at 2147483648
             \<lparr>user_version = 5, table_rows = [''Payment'' \<mapsto> [1 :: nat, 2]], executed = []\<rparr>))
     = executed
         (create_database_at 2147483648
            \<lparr>user_version = 5, table_rows = [''Payment'' \<mapsto> [1 :: nat, 2]], executed = []\<rparr>)
         @ [ReadVersion] @ map (\<lambda>e. DropTable (entity_name e)) (rev tables)
         @ [WriteVersion 2147483648] @ map (\<lambda>e. EnsureTable (entity_name e)) tables"
proof -
  let ?db = "\<lparr>user_version = 5, table_rows = [''Payment'' \<mapsto> [1 :: nat, 2]], executed = []\<rparr>"
  have first: "user_version (create_database_at 2147483648 ?db) = 0"
    by (simp add: create_database_at_version pragma_value_def)
  then have "user_version (create_database_at 2147483648 ?db) \<noteq> 2147483648"
    by simp
  then have "executed (create_database_at 2147483648 (create_database_at 2147483648 ?db))
      = executed (create_database_at 2147483648 ?db)
          @ [ReadVersion] @ map (\<lambda>e. DropTable (entity_name e)) (rev tables)
          @ [WriteVersion 2147483648] @ map (\<lambda>e. EnsureTable (entity_name e)) tables"
    by (rule create_database_at_executed_differs)
  with first show ?thesis
    by (rule conjI)
qed

subsection \<open>Opening the handle\<close>




subsection \<open>Model instances\<close>

text \<open>
  C9.  After the constructor of \<^verbatim>\<open>Payment\<close> has run, \<^verbatim>\<open>details\<close> is never
  \<^verbatim>\<open>None\<close>; when no \<^verbatim>\<open>details\<close> was given, or \<^verbatim>\<open>None\<close> was given, it is the empty
  dictionary.
\<close>

theorem Payment_init_details:
  "getattr (Payment_init now1 now2 kwargs) ''details'' \<noteq> PyNone
   \<and> (map_of kwargs ''details'' = None \<or> map_of kwargs ''details'' = Some PyNone \<longrightarrow>
        getattr (Payment_init now1 now2 kwargs) ''details'' = PyDict [])"
  by (auto simp: Payment_init_def Let_def getattr_def Model_init_def Payment_defaults_def
      BaseModel_defaults_def map_add_def split: option.splits)

theorem Payment_init_details_witness:
  "(map_of [(''subtask'', PyStr ''s1''), (''details'', PyNone)] ''details'' = None
      \<or> map_of [(''subtask'', PyStr ''s1''), (''details'', PyNone)] ''details'' = Some PyNone)
   \<and> getattr (Payment_init 10 11 [(''subtask'', PyStr ''s1''), (''details'', PyNone)])
        ''details'' = PyDict []"
  using Payment_init_details [of 10 11 "[(''subtask'', PyStr ''s1''), (''details'', PyNone)]"]
  by simp

text \<open>
  C10.  The field \<^verbatim>\<open>modified_date\<close> gets its value when the instance is constructed,
  by default the reading of the clock at that moment.  No save of this layer refreshes
  it: for every managed entity, after any sequence of field assignments and saves in which
  \<^verbatim>\<open>modified_date\<close> is not assigned, the field still has the value it had before.
\<close>

theorem modified_date_only_set_at_construction:
  "(''modified_date'' \<notin> fst ` set kwargs \<longrightarrow>
      getattr (BaseModel_init now1 now2 kwargs) ''modified_date'' = PyDateTime now2)
   \<and> (e \<in> set tables \<and> (\<forall>a \<in> set ops. \<not> assigns ''modified_date'' a) \<longrightarrow>
        getattr (fst (run_ops e ops (self, rows))) ''modified_date''
          = getattr self ''modified_date'')"
  using modified_default [of kwargs now1 now2]
    getattr_run_ops [of e "''modified_date''" ops "(self, rows)"] tables_primary_key [of e]
  by simp

theorem modified_date_only_set_at_construction_witness:
  "''modified_date'' \<notin> fst ` set [(''node_id'', PyStr ''n'')]
   \<and> getattr (BaseModel_init 10 11 [(''node_id'', PyStr ''n'')]) ''modified_date''
       = PyDateTime 11
   \<and> Account \<in> set tables
   \<and> \<not> assigns ''modified_date'' (Save (PyInt 1))
   \<and> \<not> assigns ''modified_date'' (Assign ''description'' (PyStr ''x''))
   \<and> \<not> assigns ''modified_date'' (Save PyNone)
   \<and> getattr
       (fst (run_ops Account
               [Save (PyInt 1), Assign ''description'' (PyStr ''x''), Save PyNone]
               (BaseModel_init 10 11 [(''node_id'', PyStr ''n'')], [])))
       ''modified_date''
       = PyDateTime 11"
proof -
  let ?kw = "[(''node_id'', PyStr ''n'')]"
  let ?ops = "[Save (PyInt 1), Assign ''description'' (PyStr ''x''), Save PyNone]"
  have k: "''modified_date'' \<notin> fst ` set ?kw"
    by simp
  have m: "Account \<in> set tables"
    by (simp add: tables_def)
  have a: "\<forall>a \<in> set ?ops. \<not> assigns ''modified_date'' a"
    by simp
  from modified_date_only_set_at_construction
         [of ?kw 10 11 Account ?ops "BaseModel_init 10 11 ?kw" "[]"] k m a
  have "getattr (BaseModel_init 10 11 ?kw) ''modified_date'' = PyDateTime 11"
    and "getattr (fst (run_ops Account ?ops (BaseModel_init 10 11 ?kw, []))) ''modified_date''
           = getattr (BaseModel_init 10 11 ?kw) ''modified_date''"
    by blast+
  with k m a show ?thesis
    by simp
qed

subsection \<open>JsonField\<close>




end
